theory Spec2Isabelle
  imports Main
begin

section \<open>Board constants (src/src/App.tsx, lines 21-50)\<close>

definition GRID_SIZE :: int where
  "GRID_SIZE = 10"

definition TOTAL_SQUARES :: int where
  "TOTAL_SQUARES = 100"

text \<open>
  \<open>SNAKES\<close> and \<open>LADDERS\<close> are object literals keyed by square number. A property read
  \<open>SNAKES[n]\<close> yields the stored number, or \<open>undefined\<close> (here \<open>None\<close>) for a missing key.
\<close>

definition SNAKES :: "int \<rightharpoonup> int" where
  "SNAKES = map_of
     [(99, 80), (95, 75), (92, 88), (89, 68), (64, 60), (49, 11), (46, 25), (16, 6)]"

definition LADDERS :: "int \<rightharpoonup> int" where
  "LADDERS = map_of
     [(2, 38), (7, 14), (8, 31), (15, 26), (21, 42), (28, 84), (36, 44), (51, 67),
      (71, 91), (78, 98), (87, 94)]"

text \<open>
  The conditions \<open>if (SNAKES[newPosition])\<close> and \<open>if (LADDERS[newPosition])\<close> test the
  looked-up value for truthiness: \<open>undefined\<close> and the number 0 are falsy.
\<close>

definition truthy :: "int option \<Rightarrow> bool" where
  "truthy v = (case v of None \<Rightarrow> False | Some n \<Rightarrow> n \<noteq> 0)"

section \<open>Data (lines 62-86)\<close>

text \<open>
  \<open>Player\<close>: the field \<open>id\<close> is named \<open>id_player\<close> here; the field \<open>icon\<close> is a rendered
  element and is left out.
\<close>

record Player =
  id_player :: int
  name :: string
  position :: int
  color :: string

datatype LogType = Move | Snake | Ladder | Win | Info

text \<open>
  \<open>GameLogEntry\<close>: \<open>id\<close> (from \<open>Math.random\<close>) and \<open>timestamp\<close> (from \<open>new Date\<close>) are
  drawn from the environment and read by the view only; the model keeps the message and
  the category.
\<close>

record GameLogEntry =
  message :: string
  type :: LogType

text \<open>The \<open>useState\<close> cells of the component \<open>App\<close>.\<close>

record game =
  players :: "Player list"
  currentPlayerIndex :: nat
  diceValue :: "int option"
  isRolling :: bool
  gameLog :: "GameLogEntry list"
  winner :: "Player option"

section \<open>Number formatting in the template strings\<close>

fun digits :: "nat \<Rightarrow> string" where
  "digits n =
     (if n < 10 then [''0123456789'' ! n]
      else digits (n div 10) @ [''0123456789'' ! (n mod 10)])"

declare digits.simps [simp del]

text \<open>What a template string \<open>`${n}`\<close> prints for an integer \<open>n\<close>.\<close>

definition show_num :: "int \<Rightarrow> string" where
  "show_num i = (if i < 0 then CHR ''-'' # digits (nat (- i)) else digits (nat i))"

section \<open>The game log (lines 89-94)\<close>

text \<open>
  \<open>addLog message type\<close> is the updater handed to \<open>setGameLog\<close>: the new entry in front
  of \<open>prev.slice(0, 49)\<close>.
\<close>

definition addLog :: "string \<Rightarrow> LogType \<Rightarrow> GameLogEntry list \<Rightarrow> GameLogEntry list" where
  "addLog msg ty prev = \<lparr>message = msg, type = ty\<rparr> # take 49 prev"

section \<open>Reset (lines 100-107)\<close>

definition resetGame :: "game \<Rightarrow> game" where
  "resetGame s =
     s\<lparr>players := map (\<lambda>p. p\<lparr>position := 1\<rparr>) (players s),
       currentPlayerIndex := 0,
       diceValue := None,
       winner := None,
       gameLog := addLog ''Game reset! Player 1 goes first.'' Info []\<rparr>"

section \<open>Resolving a roll (lines 125-165)\<close>

text \<open>
  \<open>movePlayer\<close> reads \<open>players\<close> and \<open>currentPlayerIndex\<close> from the render it was created
  in (the argument \<open>c\<close>), and queues its updates on the current state \<open>s\<close>: the updaters
  of \<open>setPlayers\<close> and \<open>setGameLog\<close> receive the current value, \<open>setWinner\<close> and
  \<open>setCurrentPlayerIndex\<close> store a value computed from \<open>c\<close>. Reading
  \<open>currentPlayer.position\<close> when \<open>players[currentPlayerIndex]\<close> is \<open>undefined\<close> throws a
  TypeError before anything is queued: the result \<open>None\<close>.
  The win message starts with the four UTF-8 bytes of U+1F389.
\<close>

definition movePlayer :: "game \<Rightarrow> game \<Rightarrow> int \<Rightarrow> game option" where
  "movePlayer c s steps =
     (if currentPlayerIndex c < length (players c) then
        let currentPlayer = players c ! currentPlayerIndex c;
            tentative = position currentPlayer + steps;
            log1 = addLog (name currentPlayer @ '' rolled a '' @ show_num steps @ ''.'') Move;
            overshoot = (tentative > TOTAL_SQUARES);
            log2 = (if overshoot
                    then addLog (name currentPlayer @ '' needs exactly '' @
                           show_num (TOTAL_SQUARES - position currentPlayer) @ '' to win.'') Info
                    else (\<lambda>prev. prev));
            newPosition = (if overshoot then position currentPlayer else tentative);
            (finalPosition, transitionType) =
               (if truthy (SNAKES newPosition) then (the (SNAKES newPosition), Some Snake)
                else if truthy (LADDERS newPosition) then (the (LADDERS newPosition), Some Ladder)
                else (newPosition, None));
            s1 = s\<lparr>players :=
                     map (\<lambda>(i, p). if i = currentPlayerIndex c
                                    then p\<lparr>position := finalPosition\<rparr> else p)
                       (enumerate 0 (players s))\<rparr>;
            log3 = (if transitionType = Some Snake
                    then addLog (''Oh no! '' @ name currentPlayer @ '' hit a snake at '' @
                           show_num newPosition @ '' and fell to '' @
                           show_num finalPosition @ ''!'') Snake
                    else if transitionType = Some Ladder
                    then addLog (''Great! '' @ name currentPlayer @ '' climbed a ladder at '' @
                           show_num newPosition @ '' to '' @ show_num finalPosition @ ''!'') Ladder
                    else (\<lambda>prev. prev))
        in if finalPosition = TOTAL_SQUARES
           then Some (s1\<lparr>winner := Some currentPlayer,
                         gameLog :=
                           addLog ([CHR 0xF0, CHR 0x9F, CHR 0x8E, CHR 0x89] @ '' '' @
                                   name currentPlayer @ '' wins the game!'') Win
                             (log3 (log2 (log1 (gameLog s))))\<rparr>)
           else Some (s1\<lparr>currentPlayerIndex :=
                           (currentPlayerIndex c + 1) mod length (players c),
                         gameLog := log3 (log2 (log1 (gameLog s)))\<rparr>)
      else None)"

text \<open>A resolution with nothing in between: the handler's render is the current state.\<close>

definition resolve :: "game \<Rightarrow> int \<Rightarrow> game option" where
  "resolve s steps = movePlayer s s steps"

section \<open>Rolling (lines 109-123)\<close>

text \<open>
  \<open>rollDice\<close> is asynchronous. Up to the \<open>await\<close> it checks its guard and sets the rolling
  flag (\<open>rollDice_start\<close>); after the timer it stores the drawn value, clears the flag and
  calls \<open>movePlayer\<close> of the render the click happened in (\<open>rollDice_finish\<close>). The drawn
  value \<open>Math.floor(Math.random() * 6) + 1\<close> is the argument \<open>roll\<close>.
\<close>

definition rollDice_start :: "game \<Rightarrow> game" where
  "rollDice_start s = s\<lparr>isRolling := True, diceValue := None\<rparr>"

definition rollDice_finish :: "game \<Rightarrow> game \<Rightarrow> int \<Rightarrow> game option" where
  "rollDice_finish c s roll = movePlayer c (s\<lparr>diceValue := Some roll, isRolling := False\<rparr>) roll"

text \<open>A whole call of \<open>rollDice\<close> with no other event during the wait.\<close>

definition rollDice :: "game \<Rightarrow> int \<Rightarrow> game option" where
  "rollDice s roll =
     (if isRolling s \<or> winner s \<noteq> None then Some s
      else rollDice_finish s (rollDice_start s) roll)"

section \<open>Grid coordinates (lines 172-182)\<close>

text \<open>The remainder operator \<open>%\<close> of the source truncates: its sign is the dividend's.\<close>

definition js_rem :: "int \<Rightarrow> int \<Rightarrow> int" where
  "js_rem a b = (if a < 0 then - ((- a) mod \<bar>b\<bar>) else a mod \<bar>b\<bar>)"

definition getCoordinates :: "int \<Rightarrow> int \<times> int" where
  "getCoordinates square =
     (let zeroIndexed = square - 1;
          row = zeroIndexed div GRID_SIZE;
          col = js_rem zeroIndexed GRID_SIZE;
          x = (if js_rem row 2 = 0 then col else (GRID_SIZE - 1) - col);
          y = (GRID_SIZE - 1) - row
      in (x, y))"

section \<open>The running game\<close>

text \<open>
  The state after mounting (lines 78-86 and the effect of lines 96-98).
\<close>

definition initial :: game where
  "initial =
     \<lparr>players =
        [\<lparr>id_player = 1, name = ''Player 1'', position = 1, color = ''#8b5cf6''\<rparr>,
         \<lparr>id_player = 2, name = ''Player 2'', position = 1, color = ''#f59e0b''\<rparr>],
      currentPlayerIndex = 0,
      diceValue = None,
      isRolling = False,
      gameLog = addLog ''Game started! Player 1 goes first.'' Info [],
      winner = None\<rparr>"

text \<open>
  The configurations the interface can reach: the current state, and the render a roll in
  flight was started from, if there is one. The Roll button runs \<open>rollDice\<close>, whose guard
  passes only outside a roll and before a win; the timer resolves the roll with a value in
  1..6; the Reset button works at any time, also during the wait.
\<close>

inductive reachable :: "game option \<Rightarrow> game \<Rightarrow> bool" where
  start: "reachable None initial"
| click_roll: "reachable None s \<Longrightarrow> \<not> (isRolling s \<or> winner s \<noteq> None) \<Longrightarrow>
     reachable (Some s) (rollDice_start s)"
| timer: "reachable (Some c) s \<Longrightarrow> 1 \<le> roll \<Longrightarrow> roll \<le> 6 \<Longrightarrow>
     rollDice_finish c s roll = Some s' \<Longrightarrow> reachable None s'"
| click_reset: "reachable pc s \<Longrightarrow> reachable pc (resetGame s)"

code_pred reachable .

section \<open>Notions used in the proofs\<close>

text \<open>
  The square a resolution ends on, for a player on \<open>p\<close>: what \<open>movePlayer\<close> stores in
  \<open>finalPosition\<close>.
\<close>

definition landing :: "int \<Rightarrow> int \<Rightarrow> int" where
  "landing p steps =
     (let n = (if p + steps > 100 then p else p + steps)
      in case SNAKES n of
           Some d \<Rightarrow> d
         | None \<Rightarrow> (case LADDERS n of Some d \<Rightarrow> d | None \<Rightarrow> n))"

text \<open>A square of the board that starts no snake and no ladder.\<close>

definition plain_square :: "int \<Rightarrow> bool" where
  "plain_square p = (1 \<le> p \<and> p \<le> 100 \<and> SNAKES p = None \<and> LADDERS p = None)"

text \<open>
  The invariant of the running game: two players, a valid turn index, every token on a
  plain square, and a winner recorded as soon as a token stands on square 100.
\<close>

definition sound :: "game \<Rightarrow> bool" where
  "sound s =
     (length (players s) = 2 \<and> currentPlayerIndex s < 2 \<and>
      list_all (\<lambda>p. plain_square (position p)) (players s) \<and>
      (list_ex (\<lambda>p. position p = 100) (players s) \<longrightarrow> winner s \<noteq> None))"

text \<open>
  With a roll in flight, the render it started from is sound and had no winner, and the
  current state has none either.
\<close>

definition consistent :: "game option \<Rightarrow> game \<Rightarrow> bool" where
  "consistent pc s =
     (sound s \<and>
      (case pc of
         None \<Rightarrow> True
       | Some c \<Rightarrow> sound c \<and> winner c = None \<and> winner s = None))"

text \<open>Whole rolls one after the other, each a call of \<open>rollDice\<close> with its drawn value.\<close>

fun play :: "game \<Rightarrow> int list \<Rightarrow> game option" where
  "play s [] = Some s"
| "play s (r # rs) = (case rollDice s r of None \<Rightarrow> None | Some s' \<Rightarrow> play s' rs)"

text \<open>The square drawn in the cell in column \<open>x\<close>, \<open>y\<close> rows below the top row.\<close>

definition square_at :: "int \<times> int \<Rightarrow> int" where
  "square_at c =
     (case c of (x, y) \<Rightarrow> 10 * (9 - y) + (if even (9 - y) then x else 9 - x) + 1)"

section \<open>Auxiliary lemmas\<close>

subsection \<open>The board tables\<close>

lemma truthy_SNAKES: "truthy (SNAKES n) \<longleftrightarrow> SNAKES n \<noteq> None"
  by (auto simp: truthy_def SNAKES_def)

lemma truthy_LADDERS: "truthy (LADDERS n) \<longleftrightarrow> LADDERS n \<noteq> None"
  by (auto simp: truthy_def LADDERS_def)

lemma SNAKES_dest:
  "SNAKES n = Some d \<Longrightarrow> 1 \<le> d \<and> d < n \<and> n < 100 \<and> SNAKES d = None \<and> LADDERS d = None"
  by (auto simp: SNAKES_def LADDERS_def split: if_splits)

lemma LADDERS_dest:
  "LADDERS n = Some d \<Longrightarrow> 1 < n \<and> n < d \<and> d < 100 \<and> SNAKES d = None \<and> LADDERS d = None"
  by (auto simp: SNAKES_def LADDERS_def split: if_splits)

lemma landing_plain: "plain_square p \<Longrightarrow> 0 \<le> steps \<Longrightarrow> plain_square (landing p steps)"
  by (auto simp: landing_def plain_square_def Let_def split: option.splits
        dest: SNAKES_dest LADDERS_dest)

lemma landing_overshoot:
  "SNAKES p = None \<Longrightarrow> LADDERS p = None \<Longrightarrow> p + steps > 100 \<Longrightarrow> landing p steps = p"
  by (simp add: landing_def)

subsection \<open>The state after \<open>movePlayer\<close>, field by field\<close>

lemma enumerate_update:
  "map (\<lambda>(i, p). if i = k then f p else p) (enumerate 0 ps) =
     (if k < length ps then ps[k := f (ps ! k)] else ps)"
  by (rule nth_equalityI) (auto simp: nth_enumerate_eq)

lemma movePlayer_Some:
  "currentPlayerIndex c < length (players c) \<Longrightarrow> \<exists>s'. movePlayer c s steps = Some s'"
  by (simp add: movePlayer_def Let_def split: prod.splits)

lemma movePlayer_players:
  assumes "movePlayer c s steps = Some s'"
  shows "players s' =
    (if currentPlayerIndex c < length (players s)
     then (players s)[currentPlayerIndex c :=
            (players s ! currentPlayerIndex c)
              \<lparr>position := landing (position (players c ! currentPlayerIndex c)) steps\<rparr>]
     else players s)"
  using assms
  by (auto simp: movePlayer_def Let_def enumerate_update TOTAL_SQUARES_def truthy_SNAKES
        truthy_LADDERS landing_def split: if_splits)

lemma movePlayer_winner:
  assumes "movePlayer c s steps = Some s'"
  shows "winner s' =
    (if landing (position (players c ! currentPlayerIndex c)) steps = 100
     then Some (players c ! currentPlayerIndex c) else winner s)"
  using assms
  by (auto simp: movePlayer_def Let_def TOTAL_SQUARES_def truthy_SNAKES truthy_LADDERS
        landing_def split: if_splits)

lemma movePlayer_index:
  assumes "movePlayer c s steps = Some s'"
  shows "currentPlayerIndex s' =
    (if landing (position (players c ! currentPlayerIndex c)) steps = 100
     then currentPlayerIndex s
     else (currentPlayerIndex c + 1) mod length (players c))"
  using assms
  by (auto simp: movePlayer_def Let_def TOTAL_SQUARES_def truthy_SNAKES truthy_LADDERS
        landing_def split: if_splits)

text \<open>The log after \<open>movePlayer\<close>, by the branch taken.\<close>

lemma addLog_two:
  "\<exists>m m2. addLog a t (addLog b Move L) =
     \<lparr>message = m2, type = t\<rparr> # \<lparr>message = m, type = Move\<rparr> # take 48 L"
  by (simp add: addLog_def)

lemma addLog_one: "\<exists>m. addLog a Move L = \<lparr>message = m, type = Move\<rparr> # take 49 L"
  by (simp add: addLog_def)

lemma movePlayer_log_overshoot:
  assumes "movePlayer c s steps = Some s'"
    and "position (players c ! currentPlayerIndex c) + steps > 100"
    and "SNAKES (position (players c ! currentPlayerIndex c)) = None"
    and "LADDERS (position (players c ! currentPlayerIndex c)) = None"
    and "position (players c ! currentPlayerIndex c) \<noteq> 100"
  shows "\<exists>m m2. gameLog s' =
      \<lparr>message = m2, type = Info\<rparr> # \<lparr>message = m, type = Move\<rparr> #
      take 48 (gameLog s)"
  using assms
  by (auto simp: movePlayer_def Let_def TOTAL_SQUARES_def truthy_def addLog_two
        split: if_splits)

lemma movePlayer_log_snake:
  assumes "movePlayer c s steps = Some s'"
    and "position (players c ! currentPlayerIndex c) + steps \<le> 100"
    and "SNAKES (position (players c ! currentPlayerIndex c) + steps) = Some d"
  shows "\<exists>m m2. gameLog s' =
      \<lparr>message = m2, type = Snake\<rparr> # \<lparr>message = m, type = Move\<rparr> #
      take 48 (gameLog s)"
proof -
  from SNAKES_dest [OF assms(3)] have "d \<noteq> 100" "d \<noteq> 0"
    by simp_all
  moreover from assms(2) have "\<not> 100 < position (players c ! currentPlayerIndex c) + steps"
    by simp
  ultimately show ?thesis
    using assms(1,3)
    by (auto simp: movePlayer_def Let_def TOTAL_SQUARES_def truthy_def addLog_two
          split: if_splits)
qed

lemma movePlayer_log_ladder:
  assumes "movePlayer c s steps = Some s'"
    and "position (players c ! currentPlayerIndex c) + steps \<le> 100"
    and "SNAKES (position (players c ! currentPlayerIndex c) + steps) = None"
    and "LADDERS (position (players c ! currentPlayerIndex c) + steps) = Some d"
  shows "\<exists>m m2. gameLog s' =
      \<lparr>message = m2, type = Ladder\<rparr> # \<lparr>message = m, type = Move\<rparr> #
      take 48 (gameLog s)"
proof -
  from LADDERS_dest [OF assms(4)] have "d \<noteq> 100" "d \<noteq> 0"
    by simp_all
  moreover from assms(2) have "\<not> 100 < position (players c ! currentPlayerIndex c) + steps"
    by simp
  ultimately show ?thesis
    using assms(1,3,4)
    by (auto simp: movePlayer_def Let_def TOTAL_SQUARES_def truthy_def addLog_two
          split: if_splits)
qed

lemma movePlayer_log_goal:
  assumes "movePlayer c s steps = Some s'"
    and "position (players c ! currentPlayerIndex c) + steps = 100"
  shows "\<exists>m m2. gameLog s' =
      \<lparr>message = m2, type = Win\<rparr> # \<lparr>message = m, type = Move\<rparr> #
      take 48 (gameLog s)"
  using assms
  by (auto simp: movePlayer_def Let_def TOTAL_SQUARES_def truthy_def SNAKES_def LADDERS_def
        addLog_two split: if_splits)

lemma movePlayer_log_plain:
  assumes "movePlayer c s steps = Some s'"
    and "position (players c ! currentPlayerIndex c) + steps < 100"
    and "SNAKES (position (players c ! currentPlayerIndex c) + steps) = None"
    and "LADDERS (position (players c ! currentPlayerIndex c) + steps) = None"
  shows "\<exists>m. gameLog s' = \<lparr>message = m, type = Move\<rparr> # take 49 (gameLog s)"
  using assms
  by (auto simp: movePlayer_def Let_def TOTAL_SQUARES_def truthy_def addLog_one
        split: if_splits)

lemma movePlayer_gameLog:
  assumes "movePlayer c s steps = Some s'"
    and "SNAKES (position (players c ! currentPlayerIndex c)) = None"
    and "LADDERS (position (players c ! currentPlayerIndex c)) = None"
    and "position (players c ! currentPlayerIndex c) \<noteq> 100"
  shows "\<exists>m. gameLog s' = \<lparr>message = m, type = Move\<rparr> # take 49 (gameLog s) \<or>
           (\<exists>m2 t2. t2 \<in> {Snake, Ladder, Win, Info} \<and>
              gameLog s' =
                  \<lparr>message = m2, type = t2\<rparr> # \<lparr>message = m, type = Move\<rparr> #
                  take 48 (gameLog s))"
proof -
  let ?t = "position (players c ! currentPlayerIndex c) + steps"
  have top: "SNAKES 100 = None" "LADDERS 100 = None"
    by (simp_all add: SNAKES_def LADDERS_def)
  consider (over) "?t > 100"
    | (snake) d where "?t \<le> 100" "SNAKES ?t = Some d"
    | (ladder) d where "?t \<le> 100" "SNAKES ?t = None" "LADDERS ?t = Some d"
    | (goal) "?t = 100"
    | (plain) "?t < 100" "SNAKES ?t = None" "LADDERS ?t = None"
    using top by (cases "SNAKES ?t"; cases "LADDERS ?t"; cases "?t = 100"; force)
  then show ?thesis
  proof cases
    case over
    from movePlayer_log_overshoot [OF assms(1) over assms(2,3,4)] show ?thesis
      by blast
  next
    case snake
    from movePlayer_log_snake [OF assms(1) snake] show ?thesis
      by blast
  next
    case ladder
    from movePlayer_log_ladder [OF assms(1) ladder] show ?thesis
      by blast
  next
    case goal
    from movePlayer_log_goal [OF assms(1) goal] show ?thesis
      by blast
  next
    case plain
    from movePlayer_log_plain [OF assms(1) plain] show ?thesis
      by blast
  qed
qed

subsection \<open>The invariant of the running game\<close>

lemma movePlayer_sound:
  assumes c: "sound c" and s: "sound s" and st: "0 \<le> steps"
    and m: "movePlayer c s steps = Some s'"
  shows "sound s'"
proof -
  let ?i = "currentPlayerIndex c"
  let ?f = "landing (position (players c ! ?i)) steps"
  from c have i: "?i < length (players c)" "length (players c) = 2"
    by (simp_all add: sound_def)
  from c i have "plain_square (position (players c ! ?i))"
    by (simp add: sound_def list_all_length)
  then have f: "plain_square ?f"
    using st by (rule landing_plain)
  from s i have "?i < length (players s)"
    by (simp add: sound_def)
  then have ps: "players s' = (players s)[?i := (players s ! ?i)\<lparr>position := ?f\<rparr>]"
    using movePlayer_players [OF m] by simp
  have mem: "p = (players s ! ?i)\<lparr>position := ?f\<rparr> \<or> p \<in> set (players s)"
    if "p \<in> set (players s')" for p
    using that set_update_subset_insert [of "players s" ?i] unfolding ps by auto
  have w: "winner s' = (if ?f = 100 then Some (players c ! ?i) else winner s)"
    by (rule movePlayer_winner [OF m])
  have ix: "currentPlayerIndex s' =
      (if ?f = 100 then currentPlayerIndex s else (?i + 1) mod length (players c))"
    by (rule movePlayer_index [OF m])
  have "length (players s') = 2"
    using ps s by (simp add: sound_def)
  moreover have "currentPlayerIndex s' < 2"
    using ix s i by (simp add: sound_def)
  moreover have "list_all (\<lambda>p. plain_square (position p)) (players s')"
    unfolding list_all_iff
  proof
    fix p assume "p \<in> set (players s')"
    from mem [OF this] show "plain_square (position p)"
      using f s by (auto simp: sound_def list_all_iff)
  qed
  moreover have "list_ex (\<lambda>p. position p = 100) (players s') \<longrightarrow> winner s' \<noteq> None"
  proof (cases "?f = 100")
    case True
    then show ?thesis using w by simp
  next
    case False
    have "winner s \<noteq> None" if "p \<in> set (players s')" and "position p = 100" for p
    proof -
      from mem [OF that(1)] that(2) False have "p \<in> set (players s)" by auto
      with that(2) s show ?thesis by (auto simp: sound_def list_ex_iff)
    qed
    then show ?thesis using w False by (auto simp: list_ex_iff)
  qed
  ultimately show ?thesis by (simp add: sound_def)
qed

lemma sound_initial: "sound initial"
  by (simp add: sound_def initial_def plain_square_def SNAKES_def LADDERS_def)

lemma sound_resetGame: "sound s \<Longrightarrow> sound (resetGame s)"
  by (auto simp: sound_def resetGame_def plain_square_def SNAKES_def LADDERS_def
        list_all_iff list_ex_iff)

lemma sound_flags: "sound (s\<lparr>diceValue := d, isRolling := b\<rparr>) = sound s"
  by (simp add: sound_def)

lemma reachable_consistent: "reachable pc s \<Longrightarrow> consistent pc s"
proof (induction rule: reachable.induct)
  case start
  show ?case by (simp add: consistent_def sound_initial)
next
  case (click_roll s)
  then show ?case by (simp add: consistent_def rollDice_start_def sound_def)
next
  case (timer c s roll s')
  then show ?case
    using movePlayer_sound [of c "s\<lparr>diceValue := Some roll, isRolling := False\<rparr>" roll s']
    by (simp add: consistent_def rollDice_finish_def sound_flags)
next
  case (click_reset pc s)
  have "winner (resetGame s) = None"
    by (simp add: resetGame_def)
  with click_reset show ?case
    by (auto simp: consistent_def sound_resetGame split: option.splits)
qed

lemma sound_active:
  assumes "sound s"
  shows "currentPlayerIndex s < length (players s)"
    and "plain_square (position (players s ! currentPlayerIndex s))"
  using assms by (simp_all add: sound_def list_all_length)

lemma sound_no_winner:
  assumes "sound s" and "winner s = None"
  shows "position (players s ! currentPlayerIndex s) \<noteq> 100"
proof
  assume "position (players s ! currentPlayerIndex s) = 100"
  moreover have "players s ! currentPlayerIndex s \<in> set (players s)"
    using sound_active(1) [OF assms(1)] by simp
  ultimately have "list_ex (\<lambda>p. position p = 100) (players s)"
    unfolding list_ex_iff by blast
  with assms show False by (simp add: sound_def)
qed



subsection \<open>Coordinates\<close>

lemma divmod10:
  "0 \<le> x \<Longrightarrow> x \<le> 9 \<Longrightarrow> (10 * q + x) div 10 = q \<and> (10 * q + x) mod 10 = (x::int)"
  by simp

lemma getCoordinates_at:
  assumes "0 \<le> q" and "0 \<le> k" and "k \<le> 9"
  shows "getCoordinates (10 * q + k + 1) = (if even q then k else 9 - k, 9 - q)"
proof -
  have a: "10 * q + k + 1 - 1 = 10 * q + k" by simp
  have d: "(10 * q + k) div 10 = q" "(10 * q + k) mod 10 = k"
    using divmod10 [of k q] assms by simp_all
  have n: "\<not> 10 * q + k < 0" using assms by simp
  show ?thesis
    unfolding getCoordinates_def Let_def GRID_SIZE_def a d js_rem_def
    using assms n by (simp add: even_iff_mod_2_eq_zero d)
qed

lemma getCoordinates_serpentine:
  assumes "1 \<le> s" and "s \<le> 100"
  shows "getCoordinates s =
           (if even ((s - 1) div 10) then (s - 1) mod 10 else 9 - (s - 1) mod 10,
            9 - (s - 1) div 10)"
proof -
  have "s = 10 * ((s - 1) div 10) + (s - 1) mod 10 + 1" by simp
  moreover have "0 \<le> (s - 1) div 10" "0 \<le> (s - 1) mod 10" "(s - 1) mod 10 \<le> 9"
    using assms by simp_all
  ultimately show ?thesis
    using getCoordinates_at [of "(s - 1) div 10" "(s - 1) mod 10"] by simp
qed

lemma getCoordinates_in_grid:
  assumes "1 \<le> s" and "s \<le> 100"
  shows "getCoordinates s \<in> {0..9} \<times> {0..9}"
proof -
  have "0 \<le> (s - 1) div 10" "(s - 1) div 10 \<le> 9" "0 \<le> (s - 1) mod 10" "(s - 1) mod 10 \<le> 9"
    using assms by auto
  then show ?thesis
    using assms by (auto simp: getCoordinates_serpentine)
qed

lemma square_at_getCoordinates: "1 \<le> s \<Longrightarrow> s \<le> 100 \<Longrightarrow> square_at (getCoordinates s) = s"
  by (simp add: getCoordinates_serpentine square_at_def)

lemma square_at_range:
  "0 \<le> x \<Longrightarrow> x \<le> 9 \<Longrightarrow> 0 \<le> y \<Longrightarrow> y \<le> 9 \<Longrightarrow> 1 \<le> square_at (x, y) \<and> square_at (x, y) \<le> 100"
  by (simp add: square_at_def)

lemma getCoordinates_square_at:
  assumes "0 \<le> x" "x \<le> 9" "0 \<le> y" "y \<le> 9"
  shows "getCoordinates (square_at (x, y)) = (x, y)"
proof (cases "even (9 - y)")
  case True
  then have "square_at (x, y) = 10 * (9 - y) + x + 1"
    by (simp add: square_at_def)
  then show ?thesis
    using getCoordinates_at [of "9 - y" x] assms True by simp
next
  case False
  then have "square_at (x, y) = 10 * (9 - y) + (9 - x) + 1"
    by (simp add: square_at_def)
  then show ?thesis
    using getCoordinates_at [of "9 - y" "9 - x"] assms False by simp
qed

section \<open>The claims\<close>

subsection \<open>C1: a roll past square 100\<close>



subsection \<open>C2: reaching square 100\<close>

text \<open>
  C2. When a resolution leaves the active player on square 100, the winner is that
  player (the object read at the start of the resolution), the newest log entry is a
  \<open>Win\<close> entry, the turn index is as before, and every later call of \<open>rollDice\<close>
  returns the state unchanged; \<open>resetGame\<close> clears the winner again.
\<close>

theorem win_ends_game:
  assumes "resolve s steps = Some s'"
    and "position (players s' ! currentPlayerIndex s) = 100"
  shows "winner s' = Some (players s ! currentPlayerIndex s) \<and>
         gameLog s' \<noteq> [] \<and> type (hd (gameLog s')) = Win \<and>
         currentPlayerIndex s' = currentPlayerIndex s \<and>
         (\<forall>roll. rollDice s' roll = Some s') \<and>
         winner (resetGame s') = None"
proof -
  from assms have "winner s' = Some (players s ! currentPlayerIndex s) \<and>
         gameLog s' \<noteq> [] \<and> type (hd (gameLog s')) = Win \<and>
         currentPlayerIndex s' = currentPlayerIndex s"
    by (auto simp: resolve_def movePlayer_def Let_def TOTAL_SQUARES_def enumerate_update addLog_def
          split: if_splits prod.splits)
  then show ?thesis
    by (simp add: rollDice_def resetGame_def)
qed

text \<open>
  A game that gets there: Player 1 rolls 6, 1, 2, 3 (squares 14, 26, 84, 94) and Player 2
  rolls 4 each time; then Player 1 rolls 6.
\<close>

theorem win_ends_game_witness:
  "\<exists>c s'. play initial [6, 4, 1, 4, 2, 4, 3, 4] = Some c \<and>
     position (players c ! currentPlayerIndex c) = 94 \<and>
     resolve c 6 = Some s' \<and>
     position (players s' ! currentPlayerIndex c) = 100 \<and>
     winner s' = Some (players c ! currentPlayerIndex c) \<and>
     gameLog s' \<noteq> [] \<and> type (hd (gameLog s')) = Win \<and>
     currentPlayerIndex s' = currentPlayerIndex c \<and>
     rollDice s' 4 = Some s' \<and>
     winner (resetGame s') = None"
proof -
  have "map_option (\<lambda>c. (map position (players c), currentPlayerIndex c))
          (play initial [6, 4, 1, 4, 2, 4, 3, 4]) = Some ([94, 17], 0)"
    by code_simp
  then obtain c where c: "play initial [6, 4, 1, 4, 2, 4, 3, 4] = Some c"
    "map position (players c) = [94, 17]" "currentPlayerIndex c = 0"
    by auto
  from c(2) have len: "length (players c) = 2"
    by (metis length_map length_Cons list.size(3) numeral_2_eq_2)
  from c(2,3) have p: "position (players c ! currentPlayerIndex c) = 94"
    by auto
  from len c(3) obtain s' where r: "resolve c 6 = Some s'"
    unfolding resolve_def using movePlayer_Some [of c c 6] by auto
  then have m: "movePlayer c c 6 = Some s'"
    by (simp add: resolve_def)
  have q: "position (players s' ! currentPlayerIndex c) = 100"
    using movePlayer_players [OF m] len c(3) p
    by (simp add: landing_def SNAKES_def LADDERS_def)
  from win_ends_game [OF r q] c(1) p r q show ?thesis
    by blast
qed

subsection \<open>C3: snakes and ladders on the landing square\<close>

text \<open>
  C3. Let \<open>t\<close> be the active player's position plus the roll, with \<open>t \<le> 100\<close>. The
  resolution returns a state. If \<open>t\<close> is a key of \<open>SNAKES\<close> with value \<open>d\<close>, the player ends
  on \<open>d\<close>, \<open>d < t\<close>, and the log has received the roll announcement and a \<open>Snake\<close>
  entry. Otherwise, if \<open>t\<close> is a key of \<open>LADDERS\<close> with value \<open>d\<close>, the player ends on
  \<open>d\<close> and the log has received the roll announcement and a \<open>Ladder\<close> entry. Otherwise
  the player ends on \<open>t\<close>. The snake table is consulted first. The new log is written
  out as a list: the two new entries, newest first, in front of the 48 newest old ones.
\<close>

theorem landing_square_transition:
  assumes "currentPlayerIndex s < length (players s)"
    and "t = position (players s ! currentPlayerIndex s) + steps"
    and "t \<le> 100"
  shows "\<exists>s'. resolve s steps = Some s' \<and>
          (case SNAKES t of
             Some d \<Rightarrow>
               position (players s' ! currentPlayerIndex s) = d \<and> d < t \<and>
               (\<exists>m1 m2. gameLog s' =
                   \<lparr>message = m2, type = Snake\<rparr> # \<lparr>message = m1, type = Move\<rparr> #
                   take 48 (gameLog s))
           | None \<Rightarrow>
              (case LADDERS t of
                 Some d \<Rightarrow>
                   position (players s' ! currentPlayerIndex s) = d \<and>
                   (\<exists>m1 m2. gameLog s' =
                       \<lparr>message = m2, type = Ladder\<rparr> # \<lparr>message = m1, type = Move\<rparr> #
                       take 48 (gameLog s))
               | None \<Rightarrow> position (players s' ! currentPlayerIndex s) = t))"
proof -
  from assms(1) obtain s' where m: "movePlayer s s steps = Some s'"
    using movePlayer_Some by blast
  have t: "position (players s ! currentPlayerIndex s) + steps \<le> 100"
    using assms(2,3) by simp
  have pos: "position (players s' ! currentPlayerIndex s) =
      (case SNAKES t of Some d \<Rightarrow> d
       | None \<Rightarrow> (case LADDERS t of Some d \<Rightarrow> d | None \<Rightarrow> t))"
    using movePlayer_players [OF m] assms(1) t unfolding assms(2)
    by (simp add: landing_def Let_def)
  have "case SNAKES t of
             Some d \<Rightarrow>
               position (players s' ! currentPlayerIndex s) = d \<and> d < t \<and>
               (\<exists>m1 m2. gameLog s' =
                   \<lparr>message = m2, type = Snake\<rparr> # \<lparr>message = m1, type = Move\<rparr> #
                   take 48 (gameLog s))
           | None \<Rightarrow>
              (case LADDERS t of
                 Some d \<Rightarrow>
                   position (players s' ! currentPlayerIndex s) = d \<and>
                   (\<exists>m1 m2. gameLog s' =
                       \<lparr>message = m2, type = Ladder\<rparr> # \<lparr>message = m1, type = Move\<rparr> #
                       take 48 (gameLog s))
               | None \<Rightarrow> position (players s' ! currentPlayerIndex s) = t)"
  proof (cases "SNAKES t")
    case (Some d)
    then have "SNAKES (position (players s ! currentPlayerIndex s) + steps) = Some d"
      using assms(2) by simp
    from movePlayer_log_snake [OF m t this] SNAKES_dest [OF Some] pos Some
    show ?thesis by simp
  next
    case None
    show ?thesis
    proof (cases "LADDERS t")
      case (Some d)
      have "SNAKES (position (players s ! currentPlayerIndex s) + steps) = None"
        "LADDERS (position (players s ! currentPlayerIndex s) + steps) = Some d"
        using None Some assms(2) by simp_all
      from movePlayer_log_ladder [OF m t this] pos None Some
      show ?thesis by simp
    next
      case n: None
      with None pos show ?thesis by simp
    qed
  qed
  with m show ?thesis
    by (simp add: resolve_def)
qed

theorem landing_square_transition_witness:
  "SNAKES 16 = Some 6 \<and> LADDERS 7 = Some 14 \<and> SNAKES 7 = None \<and>
   SNAKES 5 = None \<and> LADDERS 5 = None \<and>
   (\<exists>s'. resolve (initial\<lparr>players := map (\<lambda>p. p\<lparr>position := 10\<rparr>) (players initial)\<rparr>) 6 = Some s' \<and>
      position (players s' ! 0) = 6 \<and>
      (\<exists>m1 m2. gameLog s' =
          \<lparr>message = m2, type = Snake\<rparr> # \<lparr>message = m1, type = Move\<rparr> #
          take 48 (gameLog initial))) \<and>
   (\<exists>s'. resolve initial 6 = Some s' \<and> position (players s' ! 0) = 14 \<and>
      (\<exists>m1 m2. gameLog s' =
          \<lparr>message = m2, type = Ladder\<rparr> # \<lparr>message = m1, type = Move\<rparr> #
          take 48 (gameLog initial))) \<and>
   (\<exists>s'. resolve initial 4 = Some s' \<and> position (players s' ! 0) = 5)"
  using landing_square_transition
      [of "initial\<lparr>players := map (\<lambda>p. p\<lparr>position := 10\<rparr>) (players initial)\<rparr>" 16 6]
    landing_square_transition [of initial 7 6]
    landing_square_transition [of initial 5 4]
  by (simp add: initial_def SNAKES_def LADDERS_def)

subsection \<open>C4: the guard of \<open>rollDice\<close>\<close>

text \<open>
  C4. While a roll is in progress or a winner is recorded, \<open>rollDice\<close> returns the
  state it was called in: no field changes.
\<close>

theorem rollDice_guard:
  assumes "isRolling s \<or> winner s \<noteq> None"
  shows "rollDice s roll = Some s"
  using assms by (simp add: rollDice_def)

theorem rollDice_guard_witness:
  "isRolling (rollDice_start initial) \<and>
   rollDice (rollDice_start initial) 3 = Some (rollDice_start initial) \<and>
   winner (initial\<lparr>winner := Some (players initial ! 0)\<rparr>) \<noteq> None \<and>
   rollDice (initial\<lparr>winner := Some (players initial ! 0)\<rparr>) 3
     = Some (initial\<lparr>winner := Some (players initial ! 0)\<rparr>)"
  using rollDice_guard [of "rollDice_start initial" 3]
    rollDice_guard [of "initial\<lparr>winner := Some (players initial ! 0)\<rparr>" 3]
  by (simp add: rollDice_start_def)

subsection \<open>C5: the bound of the log\<close>

text \<open>
  C5. A log built by any sequence of appends has at most 50 entries, and so has the
  result of one append to any list. An append to a log of exactly 50 entries drops its
  last (oldest) entry and keeps the others in order behind the new one; an append to a
  shorter log drops nothing.
\<close>

theorem gameLog_capacity:
  "length (fold (\<lambda>e. addLog (message e) (type e)) es []) \<le> 50 \<and>
   length (addLog m t prev) \<le> 50 \<and>
   (length prev = 50 \<longrightarrow> addLog m t prev = \<lparr>message = m, type = t\<rparr> # butlast prev) \<and>
   (length prev < 50 \<longrightarrow> addLog m t prev = \<lparr>message = m, type = t\<rparr> # prev)"
proof -
  have b: "length (addLog m' t' prev') \<le> 50" for m' t' prev'
    by (simp add: addLog_def)
  have "length (fold (\<lambda>e. addLog (message e) (type e)) es []) \<le> 50"
    by (cases es rule: rev_cases) (simp_all add: b)
  then show ?thesis
    by (simp add: b) (simp add: addLog_def butlast_conv_take)
qed

theorem gameLog_capacity_witness:
  "length (replicate 50 \<lparr>message = ''old'', type = Move\<rparr>) = 50 \<and>
   addLog ''new'' Info (replicate 50 \<lparr>message = ''old'', type = Move\<rparr>) =
     \<lparr>message = ''new'', type = Info\<rparr> # butlast (replicate 50 \<lparr>message = ''old'', type = Move\<rparr>) \<and>
   length [\<lparr>message = ''old'', type = Move\<rparr>] < 50 \<and>
   addLog ''new'' Info [\<lparr>message = ''old'', type = Move\<rparr>] =
     [\<lparr>message = ''new'', type = Info\<rparr>, \<lparr>message = ''old'', type = Move\<rparr>]"
  using gameLog_capacity [of "[]" "''new''" Info "replicate 50 \<lparr>message = ''old'', type = Move\<rparr>"]
    gameLog_capacity [of "[]" "''new''" Info "[\<lparr>message = ''old'', type = Move\<rparr>]"]
  by simp

subsection \<open>C6: the serpentine layout\<close>

text \<open>
  C6. \<open>getCoordinates\<close> is a bijection from the squares 1..100 onto the cells of the
  10 by 10 grid. Square \<open>s\<close> lies in row \<open>(s - 1) div 10\<close> counted from the bottom (the
  \<open>y\<close> coordinate counts from the top, so it is 9 minus the row); in an even row the
  column grows with the square number, in an odd row it falls. Square 1 is the bottom
  left cell \<open>(0, 9)\<close> and square 100 the top left cell \<open>(0, 0)\<close>.
\<close>

theorem getCoordinates_bijection:
  "bij_betw getCoordinates {1..100} ({0..9} \<times> {0..9}) \<and>
   (\<forall>s \<in> {1..100}.
      getCoordinates s =
        (if even ((s - 1) div 10) then (s - 1) mod 10 else 9 - (s - 1) mod 10,
         9 - (s - 1) div 10)) \<and>
   getCoordinates 1 = (0, 9) \<and> getCoordinates 100 = (0, 0)"
proof -
  have "bij_betw getCoordinates {1..100} ({0..9} \<times> {0..9})"
  proof (rule bij_betw_byWitness [where f' = square_at])
    show "\<forall>a\<in>{1..100}. square_at (getCoordinates a) = a"
      by (simp add: square_at_getCoordinates)
    show "\<forall>a'\<in>{0..9} \<times> {0..9}. getCoordinates (square_at a') = a'"
      by (auto simp: getCoordinates_square_at)
    show "getCoordinates ` {1..100} \<subseteq> {0..9} \<times> {0..9}"
      by (rule image_subsetI) (simp add: getCoordinates_in_grid)
    show "square_at ` ({0..9} \<times> {0..9}) \<subseteq> {1..100}"
      by (rule image_subsetI) (auto simp: square_at_range)
  qed
  moreover have "getCoordinates 1 = (0, 9)" "getCoordinates 100 = (0, 0)"
    by (simp_all add: getCoordinates_def js_rem_def GRID_SIZE_def)
  ultimately show ?thesis
    by (simp add: getCoordinates_serpentine)
qed

theorem getCoordinates_bijection_witness:
  "(10::int) \<in> {1..100} \<and> (11::int) \<in> {1..100} \<and>
   getCoordinates 10 = (9, 9) \<and> getCoordinates 11 = (9, 8) \<and>
   getCoordinates 1 = (0, 9) \<and> getCoordinates 100 = (0, 0) \<and>
   bij_betw getCoordinates {1..100} ({0..9} \<times> {0..9})"
proof -
  have "(10::int) \<in> {1..100}" "(11::int) \<in> {1..100}"
    by simp_all
  with getCoordinates_bijection show ?thesis
    by auto
qed

subsection \<open>C7: the board tables\<close>

text \<open>
  C7. Every key of \<open>SNAKES\<close> and of \<open>LADDERS\<close> lies in 2..99; a snake leads to a
  strictly smaller square and a ladder to a strictly larger one; no square is a key of
  both tables.
\<close>

theorem board_tables:
  "(\<forall>k d. SNAKES k = Some d \<longrightarrow> 2 \<le> k \<and> k \<le> 99 \<and> d < k) \<and>
   (\<forall>k d. LADDERS k = Some d \<longrightarrow> 2 \<le> k \<and> k \<le> 99 \<and> k < d) \<and>
   dom SNAKES \<inter> dom LADDERS = {}"
proof -
  have s: "2 \<le> k \<and> k \<le> 99 \<and> d < k" if "SNAKES k = Some d" for k d
    using that by (auto simp: SNAKES_def split: if_splits)
  have l: "2 \<le> k \<and> k \<le> 99 \<and> k < d" if "LADDERS k = Some d" for k d
    using that by (auto simp: LADDERS_def split: if_splits)
  have "LADDERS k = None" if "SNAKES k = Some d" for k d
    using that by (auto simp: SNAKES_def LADDERS_def split: if_splits)
  then have "dom SNAKES \<inter> dom LADDERS = {}"
    by (auto simp: dom_def)
  with s l show ?thesis
    by blast
qed

theorem board_tables_witness:
  "SNAKES 99 = Some 80 \<and> (2::int) \<le> 99 \<and> (80::int) < 99 \<and>
   LADDERS 2 = Some 38 \<and> (2::int) < 38 \<and> dom SNAKES \<inter> dom LADDERS = {}"
  using board_tables by (simp add: SNAKES_def LADDERS_def)

subsection \<open>C8: reset\<close>

text \<open>
  C8. After \<open>resetGame\<close>, from any state, every player stands on square 1, there is
  no winner and no dice value, the turn index is 0, and the log is exactly one \<open>Info\<close>
  entry.
\<close>

theorem resetGame_fresh:
  "map position (players (resetGame s)) = replicate (length (players s)) 1 \<and>
   winner (resetGame s) = None \<and>
   diceValue (resetGame s) = None \<and>
   currentPlayerIndex (resetGame s) = 0 \<and>
   gameLog (resetGame s) = [\<lparr>message = ''Game reset! Player 1 goes first.'', type = Info\<rparr>]"
  by (simp add: resetGame_def addLog_def comp_def map_replicate_const)

subsection \<open>C9: log entries of one resolution\<close>

text \<open>
  C9. Every resolution of a roll in the running game returns a state whose log has
  received one \<open>Move\<close> entry and after it at most one more entry, of category
  \<open>Snake\<close>, \<open>Ladder\<close>, \<open>Win\<close> or \<open>Info\<close>. The roll in flight was started from the
  render \<open>c\<close>; the current state \<open>s\<close> may have been reset since. The new log is written
  out as a list: either the \<open>Move\<close> entry in front of the 49 newest old entries, or the
  other entry, the \<open>Move\<close> entry and the 48 newest old entries.
\<close>

theorem resolution_log_entries:
  assumes "reachable (Some c) s"
  shows "\<exists>s' m. rollDice_finish c s roll = Some s' \<and>
           (gameLog s' = \<lparr>message = m, type = Move\<rparr> # take 49 (gameLog s) \<or>
            (\<exists>m2 t2. t2 \<in> {Snake, Ladder, Win, Info} \<and>
               gameLog s' =
                   \<lparr>message = m2, type = t2\<rparr> # \<lparr>message = m, type = Move\<rparr> #
                   take 48 (gameLog s)))"
proof -
  from reachable_consistent [OF assms] have c: "sound c" "winner c = None"
    by (simp_all add: consistent_def)
  let ?s = "s\<lparr>diceValue := Some roll, isRolling := False\<rparr>"
  from sound_active(1) [OF c(1)] obtain s' where m: "movePlayer c ?s roll = Some s'"
    using movePlayer_Some by blast
  from sound_active(2) [OF c(1)]
  have "SNAKES (position (players c ! currentPlayerIndex c)) = None"
    "LADDERS (position (players c ! currentPlayerIndex c)) = None"
    by (simp_all add: plain_square_def)
  from movePlayer_gameLog [OF m this sound_no_winner [OF c]] m
  show ?thesis
    by (simp add: rollDice_finish_def)
qed

theorem resolution_log_entries_witness:
  "reachable (Some initial) (rollDice_start initial) \<and>
   (\<exists>s' m. rollDice_finish initial (rollDice_start initial) 6 = Some s' \<and>
           (gameLog s' = \<lparr>message = m, type = Move\<rparr> # take 49 (gameLog (rollDice_start initial)) \<or>
            (\<exists>m2 t2. t2 \<in> {Snake, Ladder, Win, Info} \<and>
               gameLog s' =
                   \<lparr>message = m2, type = t2\<rparr> # \<lparr>message = m, type = Move\<rparr> #
                   take 48 (gameLog (rollDice_start initial)))))"
proof -
  have r: "reachable (Some initial) (rollDice_start initial)"
    by (rule click_roll [OF start]) (simp add: initial_def)
  from r resolution_log_entries [OF r, of 6] show ?thesis
    by blast
qed

subsection \<open>C10: positions in the running game\<close>

text \<open>
  C10. In every reachable configuration each player stands on a square in 1..100 that
  is a key of neither table. In particular a roll that overshoots, resolved in such a
  state, leaves every player where they were.
\<close>

theorem reachable_positions:
  assumes "reachable pc s"
  shows "(\<forall>p \<in> set (players s).
            1 \<le> position p \<and> position p \<le> 100 \<and>
            SNAKES (position p) = None \<and> LADDERS (position p) = None) \<and>
         (\<forall>roll. position (players s ! currentPlayerIndex s) + roll > 100 \<longrightarrow>
            map_option players (resolve s roll) = Some (players s))"
proof -
  from reachable_consistent [OF assms] have s: "sound s"
    by (simp add: consistent_def)
  then have "\<forall>p \<in> set (players s). plain_square (position p)"
    by (simp add: sound_def list_all_iff)
  then have a: "\<forall>p \<in> set (players s).
            1 \<le> position p \<and> position p \<le> 100 \<and>
            SNAKES (position p) = None \<and> LADDERS (position p) = None"
    by (simp add: plain_square_def)
  have "map_option players (resolve s roll) = Some (players s)"
    if over: "position (players s ! currentPlayerIndex s) + roll > 100" for roll
  proof -
    from sound_active(1) [OF s] obtain s' where m: "movePlayer s s roll = Some s'"
      using movePlayer_Some by blast
    from sound_active(2) [OF s]
    have "landing (position (players s ! currentPlayerIndex s)) roll
        = position (players s ! currentPlayerIndex s)"
      using over by (simp add: plain_square_def landing_overshoot)
    with movePlayer_players [OF m] sound_active(1) [OF s] have "players s' = players s"
      by simp
    with m show ?thesis
      by (simp add: resolve_def)
  qed
  with a show ?thesis
    by blast
qed

theorem reachable_positions_witness:
  "\<exists>s'. rollDice_finish initial (rollDice_start initial) 6 = Some s' \<and>
     reachable None s' \<and>
     map position (players s') = [14, 1] \<and>
     1 \<le> position (players s' ! 0) \<and> position (players s' ! 0) \<le> 100 \<and>
     SNAKES (position (players s' ! 0)) = None \<and> LADDERS (position (players s' ! 0)) = None \<and>
     position (players s' ! currentPlayerIndex s') + 100 > 100 \<and>
     map_option players (resolve s' 100) = Some (players s')"
proof -
  have r: "reachable (Some initial) (rollDice_start initial)"
    by (rule click_roll [OF start]) (simp add: initial_def)
  obtain s' where f: "rollDice_finish initial (rollDice_start initial) 6 = Some s'"
    unfolding rollDice_finish_def
    using movePlayer_Some [of initial _ 6] by (auto simp: initial_def)
  have r': "reachable None s'"
    by (rule timer [OF r _ _ f]) simp_all
  have p: "map position (players s') = [14, 1]"
    using movePlayer_players [OF f [unfolded rollDice_finish_def]]
    by (simp add: initial_def rollDice_start_def landing_def SNAKES_def LADDERS_def)
  have i: "currentPlayerIndex s' = 1"
    using movePlayer_index [OF f [unfolded rollDice_finish_def]]
    by (simp add: initial_def rollDice_start_def landing_def SNAKES_def LADDERS_def)
  from p have "players s' ! 0 \<in> set (players s')" "position (players s' ! 1) = 1"
    by auto
  with reachable_positions [OF r'] f r' p i show ?thesis
    by auto
qed

end
